theory Spec2Isabelle
  imports Complex_Main "HOL-Library.AList"
begin

section \<open>Dynamic staking strategy optimizer\<close>

text \<open>
  A shallow embedding of \<^verbatim>\<open>DynamicStrategyOptimizer\<close>
  (\<^verbatim>\<open>dynamic_strategy_optimizer.py\<close>) and of the place in
  \<^verbatim>\<open>enhanced_miner.py\<close> that calls its rebalance test.

  Numbers. The program computes with IEEE doubles. Finite values are modelled as exact
  reals: rounding, overflow and the sign of zero are idealised away. The special values
  the program can really produce (a division by zero in numpy gives an infinity or a NaN
  and no exception, the mean of an empty array is NaN, \<^verbatim>\<open>float('inf')\<close> is
  written in the source) are kept, in the type \<open>fl\<close> below, with the IEEE rules for
  arithmetic and comparison on them.

  Dictionaries are association lists in insertion order, looked up with \<open>map_of\<close> and
  written with \<open>AList.update\<close> (an existing key keeps its place, a new key goes last).
  Subnet identifiers are natural numbers. Points in time are seconds, as reals.
\<close>

subsection \<open>The optimizer object\<close>

type_synonym 'v dict = "(nat \<times> 'v) list"

record optimizer =
  lookback_days :: nat
  rebalance_threshold :: real
  max_allocation :: real
  min_allocation :: real
  cash_allocation :: real
  last_rebalance :: "real option"
  target_sharpe :: real
  max_drawdown_limit :: real
  min_subnets :: nat
  max_subnets :: nat

text \<open>\<^verbatim>\<open>__init__(self, lookback_days=30, rebalance_threshold=0.05, max_allocation=0.25)\<close>\<close>

definition init_optimizer :: "nat \<Rightarrow> real \<Rightarrow> real \<Rightarrow> optimizer" where
  "init_optimizer lookback threshold max_alloc =
     \<lparr> lookback_days = lookback,
       rebalance_threshold = threshold,
       max_allocation = max_alloc,
       min_allocation = 0.02,
       cash_allocation = 0.05,
       last_rebalance = None,
       target_sharpe = 0.1,
       max_drawdown_limit = 0.8,
       min_subnets = 5,
       max_subnets = 10 \<rparr>"

definition default_optimizer :: optimizer where
  "default_optimizer = init_optimizer 30 0.05 0.25"

subsection \<open>\<^verbatim>\<open>should_rebalance\<close>\<close>

text \<open>\<^verbatim>\<open>d.get(k, 0)\<close>\<close>

definition dict_get :: "real dict \<Rightarrow> nat \<Rightarrow> real \<Rightarrow> real" where
  "dict_get d k dflt = (case map_of d k of None \<Rightarrow> dflt | Some v \<Rightarrow> v)"

text \<open>
  \<^verbatim>\<open>set(current_strategy.keys()) | set(new_strategy.keys())\<close>, as the list of
  its elements. The loop over it only takes a maximum, so the order of the list is
  immaterial.
\<close>

definition all_subnets :: "real dict \<Rightarrow> real dict \<Rightarrow> nat list" where
  "all_subnets current_strategy new_strategy =
     remdups (map fst current_strategy @ map fst new_strategy)"

text \<open>
  The loop
  \<^verbatim>\<open>for subnet in all_subnets: ... max_diff = max(max_diff, diff)\<close>,
  started at \<^verbatim>\<open>max_diff = 0\<close>.
\<close>

definition diff_step :: "real dict \<Rightarrow> real dict \<Rightarrow> nat \<Rightarrow> real \<Rightarrow> real" where
  "diff_step current_strategy new_strategy subnet max_diff =
     (let current_alloc = dict_get current_strategy subnet 0;
          new_alloc = dict_get new_strategy subnet 0;
          diff = \<bar>new_alloc - current_alloc\<bar>
      in max max_diff diff)"

definition max_diff_of :: "real dict \<Rightarrow> real dict \<Rightarrow> real" where
  "max_diff_of current_strategy new_strategy =
     fold (diff_step current_strategy new_strategy)
          (all_subnets current_strategy new_strategy) 0"

text \<open>
  \<open>now\<close> is the value of \<^verbatim>\<open>datetime.now()\<close> at the call. A stored
  \<^verbatim>\<open>datetime\<close> is always truthy, so \<^verbatim>\<open>if self.last_rebalance:\<close>
  tests that a time has been recorded.
\<close>

definition should_rebalance :: "optimizer \<Rightarrow> real \<Rightarrow> real dict \<Rightarrow> real dict \<Rightarrow> bool" where
  "should_rebalance self now current_strategy new_strategy =
     (if current_strategy = [] \<or> new_strategy = [] then True
      else if (case last_rebalance self of
                 None \<Rightarrow> False
               | Some t \<Rightarrow> (now - t) / 3600 < 6) then False
      else max_diff_of current_strategy new_strategy \<ge> rebalance_threshold self)"

text \<open>
  \<^verbatim>\<open>EnhancedMiner.optimize_strategy\<close>:
  \<^verbatim>\<open>should_rebalance = force_rebalance or self.strategy_optimizer.should_rebalance(current_strategy, new_strategy)\<close>
\<close>

definition rebalance_decision ::
  "bool \<Rightarrow> optimizer \<Rightarrow> real \<Rightarrow> real dict \<Rightarrow> real dict \<Rightarrow> bool" where
  "rebalance_decision force_rebalance self now current_strategy new_strategy =
     (force_rebalance \<or> should_rebalance self now current_strategy new_strategy)"

text \<open>
  The specification's measure of change: the largest absolute difference of the two
  allocations of a subnet, over the keys of either map, a missing key counting as 0.
\<close>

definition spec_max_diff :: "real dict \<Rightarrow> real dict \<Rightarrow> real" where
  "spec_max_diff current_strategy new_strategy =
     Max ((\<lambda>k. \<bar>dict_get new_strategy k 0 - dict_get current_strategy k 0\<bar>)
            ` (fst ` set current_strategy \<union> fst ` set new_strategy))"

subsection \<open>Numbers with the IEEE special values\<close>

datatype fl = Fin real | PInf | NInf | NaN

subsection \<open>Rows of the price table and the metric record\<close>

text \<open>
  A row of \<^verbatim>\<open>bndaily\<close> as \<^verbatim>\<open>fetch_market_data\<close> selects it. A date is
  an ISO date string in the table; only its order is used, so it is a day number here.
\<close>

record row =
  netuid :: nat
  date :: nat
  price :: real
  emission :: real
  weight :: real
  tao_in :: real
  alpha_in :: real

text \<open>
  The dictionary stored in \<^verbatim>\<open>metrics[netuid]\<close>. The keys
  \<^verbatim>\<open>'emission'\<close> and \<^verbatim>\<open>'weight'\<close> carry the names of the variables
  they are filled from, \<open>avg_emission\<close> and \<open>avg_weight\<close>.
\<close>

record metric_record =
  total_return :: real
  volatility :: real
  sharpe :: real
  max_drawdown :: fl
  win_rate :: real
  profit_factor :: fl
  kelly :: fl
  mar :: fl
  lsr :: real
  odds :: fl
  daily_return :: fl
  composite_score :: fl
  avg_emission :: real
  avg_weight :: real
  current_price :: real
  data_points :: nat

subsection \<open>Arithmetic and comparison on \<open>fl\<close>\<close>

text \<open>
  The result of an operation whose sign is \<open>s\<close> and whose size is infinite; there is
  no such result when \<open>s = 0\<close> (\<open>0 * inf\<close>, \<open>0 / 0\<close>).
\<close>

definition inf_of_sign :: "real \<Rightarrow> fl" where
  "inf_of_sign s = (if s > 0 then PInf else if s < 0 then NInf else NaN)"

fun fl_sign :: "fl \<Rightarrow> real" where
  "fl_sign (Fin x) = sgn x"
| "fl_sign PInf = 1"
| "fl_sign NInf = - 1"
| "fl_sign NaN = 0"

fun fl_neg :: "fl \<Rightarrow> fl" where
  "fl_neg (Fin x) = Fin (- x)"
| "fl_neg PInf = NInf"
| "fl_neg NInf = PInf"
| "fl_neg NaN = NaN"

fun fl_abs :: "fl \<Rightarrow> fl" where
  "fl_abs (Fin x) = Fin \<bar>x\<bar>"
| "fl_abs PInf = PInf"
| "fl_abs NInf = PInf"
| "fl_abs NaN = NaN"

fun fl_add :: "fl \<Rightarrow> fl \<Rightarrow> fl" where
  "fl_add NaN b = NaN"
| "fl_add a NaN = NaN"
| "fl_add (Fin x) (Fin y) = Fin (x + y)"
| "fl_add (Fin x) b = b"
| "fl_add a (Fin y) = a"
| "fl_add PInf PInf = PInf"
| "fl_add NInf NInf = NInf"
| "fl_add PInf NInf = NaN"
| "fl_add NInf PInf = NaN"

definition fl_sub :: "fl \<Rightarrow> fl \<Rightarrow> fl" where
  "fl_sub a b = fl_add a (fl_neg b)"

fun fl_mul :: "fl \<Rightarrow> fl \<Rightarrow> fl" where
  "fl_mul NaN b = NaN"
| "fl_mul a NaN = NaN"
| "fl_mul (Fin x) (Fin y) = Fin (x * y)"
| "fl_mul a b = inf_of_sign (fl_sign a * fl_sign b)"

text \<open>
  Division as numpy does it: a division by zero is no error; it gives an infinity with
  the sign of the dividend, or NaN for \<open>0 / 0\<close>. The zero divisor is taken as \<open>+0\<close>.
\<close>

fun fl_div :: "fl \<Rightarrow> fl \<Rightarrow> fl" where
  "fl_div NaN b = NaN"
| "fl_div a NaN = NaN"
| "fl_div (Fin x) (Fin y) = (if y \<noteq> 0 then Fin (x / y) else inf_of_sign x)"
| "fl_div (Fin x) b = Fin 0"
| "fl_div a (Fin y) = inf_of_sign (fl_sign a * (if y < 0 then - 1 else 1))"
| "fl_div a b = NaN"

text \<open>\<open>a > b\<close> and \<open>a != b\<close>: every ordering test with a NaN is false, \<open>!=\<close> is true.\<close>

fun fl_gt :: "fl \<Rightarrow> fl \<Rightarrow> bool" where
  "fl_gt NaN b = False"
| "fl_gt a NaN = False"
| "fl_gt (Fin x) (Fin y) = (x > y)"
| "fl_gt PInf PInf = False"
| "fl_gt PInf b = True"
| "fl_gt a PInf = False"
| "fl_gt NInf b = False"
| "fl_gt a NInf = True"

definition fl_ge :: "fl \<Rightarrow> fl \<Rightarrow> bool" where
  "fl_ge a b = (a \<noteq> NaN \<and> b \<noteq> NaN \<and> \<not> fl_gt b a)"

definition fl_ne :: "fl \<Rightarrow> fl \<Rightarrow> bool" where
  "fl_ne a b = (a = NaN \<or> b = NaN \<or> a \<noteq> b)"

text \<open>Python's builtin \<^verbatim>\<open>max(a, b)\<close>: \<open>b\<close> if \<open>b > a\<close>, else \<open>a\<close>.\<close>

definition py_max :: "fl \<Rightarrow> fl \<Rightarrow> fl" where
  "py_max a b = (if fl_gt b a then b else a)"

text \<open>\<^verbatim>\<open>np.minimum\<close> and \<^verbatim>\<open>np.min\<close>: a NaN among the values is the result.\<close>

definition np_minimum :: "fl \<Rightarrow> fl \<Rightarrow> fl" where
  "np_minimum a b = (if a = NaN \<or> b = NaN then NaN else if fl_gt a b then b else a)"

fun np_min :: "fl list \<Rightarrow> fl" where
  "np_min [] = NaN"
| "np_min (x # xs) = fold (\<lambda>y m. np_minimum m y) xs x"

text \<open>
  \<^verbatim>\<open>x ** y\<close> on doubles: a negative base with a fractional exponent gives NaN.
\<close>

definition np_power :: "real \<Rightarrow> real \<Rightarrow> fl" where
  "np_power x y =
     (if x > 0 then Fin (x powr y)
      else if x = 0 then (if y > 0 then Fin 0 else if y = 0 then Fin 1 else PInf)
      else if y = of_int \<lfloor>y\<rfloor> then Fin (x powi \<lfloor>y\<rfloor>)
      else NaN)"

subsection \<open>Array operations of \<^verbatim>\<open>calculate_performance_metrics\<close>\<close>

text \<open>
  \<^verbatim>\<open>np.diff(prices) / prices[:-1]\<close>. The difference and the quotient are
  exact here. On doubles they are rounded: a quotient that is close to \<open>-1\<close> can be
  stored as exactly \<open>-1\<close>, and a very large one as an infinity. No theorem below
  rests on a return being different from \<open>-1\<close>, or on the number of finite returns
  beyond its bounds.
\<close>

definition diff_over_prev :: "real list \<Rightarrow> fl list" where
  "diff_over_prev prices =
     map (\<lambda>(p, q). fl_div (Fin (q - p)) (Fin p)) (zip prices (tl prices))"

text \<open>\<^verbatim>\<open>returns[np.isfinite(returns)]\<close>\<close>

fun finite_only :: "fl list \<Rightarrow> real list" where
  "finite_only [] = []"
| "finite_only (Fin x # xs) = x # finite_only xs"
| "finite_only (a # xs) = finite_only xs"

definition returns_of :: "real list \<Rightarrow> real list" where
  "returns_of prices = finite_only (diff_over_prev prices)"

text \<open>\<^verbatim>\<open>np.mean\<close> of a non-empty array and \<^verbatim>\<open>np.std\<close> (the population one).\<close>

definition mean :: "real list \<Rightarrow> real" where
  "mean xs = sum_list xs / real (length xs)"

definition np_std :: "real list \<Rightarrow> real" where
  "np_std xs = sqrt (mean (map (\<lambda>x. (x - mean xs)\<^sup>2) xs))"

text \<open>\<^verbatim>\<open>np.mean\<close> where the array may be empty: then the result is NaN.\<close>

definition np_mean :: "real list \<Rightarrow> fl" where
  "np_mean xs = (if xs = [] then NaN else Fin (mean xs))"

fun cumprod_from :: "real \<Rightarrow> real list \<Rightarrow> real list" where
  "cumprod_from a [] = []"
| "cumprod_from a (x # xs) = (a * x) # cumprod_from (a * x) xs"

definition cumprod :: "real list \<Rightarrow> real list" where
  "cumprod xs = cumprod_from 1 xs"

fun accumulate_from :: "real \<Rightarrow> real list \<Rightarrow> real list" where
  "accumulate_from m [] = []"
| "accumulate_from m (x # xs) = max m x # accumulate_from (max m x) xs"

text \<open>\<^verbatim>\<open>np.maximum.accumulate\<close>\<close>

fun maximum_accumulate :: "real list \<Rightarrow> real list" where
  "maximum_accumulate [] = []"
| "maximum_accumulate (x # xs) = x # accumulate_from x xs"

subsection \<open>The metrics of one subnet\<close>

definition total_return_of :: "real list \<Rightarrow> real" where
  "total_return_of prices =
     (if hd prices > 0 then (last prices - hd prices) / hd prices else 0)"

definition volatility_of :: "real list \<Rightarrow> real" where
  "volatility_of returns = (if length returns > 1 then np_std returns else 0)"

definition sharpe_of :: "real list \<Rightarrow> real" where
  "sharpe_of returns =
     (let volatility = volatility_of returns
      in if volatility > 0 then mean returns / volatility else 0)"

text \<open>
  \<^verbatim>\<open>cumulative\<close>, \<^verbatim>\<open>peak\<close> and \<^verbatim>\<open>drawdown\<close>. The product and
  the peak are exact here; the division is numpy's, so a peak of 0 gives NaN or an
  infinity. On doubles the product can also reach 0 or overflow by rounding, for any
  prices, and the drawdown is then NaN as well: no theorem below takes the drawdown
  to be finite.
\<close>

definition drawdown_of :: "real list \<Rightarrow> fl list" where
  "drawdown_of returns =
     (let cumulative = cumprod (map (\<lambda>r. 1 + r) returns);
          peak = maximum_accumulate cumulative
      in map (\<lambda>(c, p). fl_div (Fin (c - p)) (Fin p)) (zip cumulative peak))"

text \<open>The local variable \<^verbatim>\<open>max_drawdown\<close>; the record stores its absolute value.\<close>

definition max_drawdown_of :: "real list \<Rightarrow> fl" where
  "max_drawdown_of returns =
     (let drawdown = drawdown_of returns
      in if length drawdown > 0 then np_min drawdown else Fin 0)"

definition positive_days_of :: "real list \<Rightarrow> nat" where
  "positive_days_of returns = length (filter (\<lambda>r. r > 0) returns)"

definition win_rate_of :: "real list \<Rightarrow> real" where
  "win_rate_of returns =
     (let positive_days = positive_days_of returns;
          total_days = length returns
      in if total_days > 0 then real positive_days / real total_days else 0)"

definition avg_win_of :: "real list \<Rightarrow> real" where
  "avg_win_of returns =
     (if positive_days_of returns > 0 then mean (filter (\<lambda>r. r > 0) returns) else 0)"

definition avg_loss_of :: "real list \<Rightarrow> fl" where
  "avg_loss_of returns =
     (if length returns - positive_days_of returns > 0
      then np_mean (filter (\<lambda>r. r < 0) returns) else Fin 0)"

definition profit_factor_of :: "real list \<Rightarrow> fl" where
  "profit_factor_of returns =
     (let avg_win = avg_win_of returns;
          avg_loss = avg_loss_of returns
      in if fl_ne avg_loss (Fin 0) then fl_abs (fl_div (Fin avg_win) avg_loss) else PInf)"

definition kelly_of :: "real list \<Rightarrow> fl" where
  "kelly_of returns =
     (let win_rate = win_rate_of returns;
          profit_factor = profit_factor_of returns
      in if fl_gt profit_factor (Fin 0)
         then fl_sub (Fin win_rate) (fl_div (Fin (1 - win_rate)) profit_factor)
         else Fin 0)"

definition mar_of :: "real list \<Rightarrow> real list \<Rightarrow> fl" where
  "mar_of prices returns =
     fl_div (Fin (total_return_of prices))
            (py_max (fl_abs (max_drawdown_of returns)) (Fin 0.01))"

definition lsr_of :: "real list \<Rightarrow> real" where
  "lsr_of returns =
     (if sum_list (map abs returns) > 0
      then sum_list returns / sum_list (map abs returns) else 0)"

definition odds_of :: "real list \<Rightarrow> fl" where
  "odds_of returns = fl_add (Fin 50) (fl_mul (fl_div (kelly_of returns) (Fin 2)) (Fin 100))"

definition daily_return_of :: "real list \<Rightarrow> real list \<Rightarrow> fl" where
  "daily_return_of prices returns =
     (let total_days = length returns
      in if total_days > 0
         then fl_sub (np_power (1 + total_return_of prices) (1 / real total_days)) (Fin 1)
         else Fin 0)"

definition composite_score_of :: "real list \<Rightarrow> real list \<Rightarrow> fl" where
  "composite_score_of prices returns =
     fl_mul (fl_mul (fl_mul (fl_mul (mar_of prices returns) (Fin (lsr_of returns)))
                            (odds_of returns))
                    (daily_return_of prices returns))
            (Fin 100)"

text \<open>The dictionary written to \<^verbatim>\<open>metrics[netuid]\<close>.\<close>

definition metrics_entry :: "row list \<Rightarrow> real list \<Rightarrow> real list \<Rightarrow> metric_record" where
  "metrics_entry subnet_data prices returns =
     \<lparr> total_return = total_return_of prices,
       volatility = volatility_of returns,
       sharpe = sharpe_of returns,
       max_drawdown = fl_abs (max_drawdown_of returns),
       win_rate = win_rate_of returns,
       profit_factor = profit_factor_of returns,
       kelly = kelly_of returns,
       mar = mar_of prices returns,
       lsr = lsr_of returns,
       odds = odds_of returns,
       daily_return = daily_return_of prices returns,
       composite_score = composite_score_of prices returns,
       avg_emission = mean (map emission subnet_data),
       avg_weight = mean (map weight subnet_data),
       current_price = last prices,
       data_points = length returns \<rparr>"

text \<open>
  \<^verbatim>\<open>subnet_data.sort_values('date')['price'].values\<close>. Rows of one subnet have
  distinct dates, so the choice of sorting algorithm plays no part.
\<close>

definition prices_of :: "row list \<Rightarrow> real list" where
  "prices_of subnet_data = map price (sort_key date subnet_data)"

text \<open>
  The body of the loop over the subnets, for the rows \<open>subnet_data\<close> of one subnet;
  \<open>None\<close> is \<^verbatim>\<open>continue\<close>: no entry is written.
\<close>

definition subnet_metrics :: "row list \<Rightarrow> metric_record option" where
  "subnet_metrics subnet_data =
     (if length subnet_data < 5 then None
      else if length (prices_of subnet_data) = 0
              \<or> list_all (\<lambda>p. p = 0) (prices_of subnet_data) then None
      else if length (returns_of (prices_of subnet_data)) = 0 then None
      else Some (metrics_entry (sort_key date subnet_data) (prices_of subnet_data)
                   (returns_of (prices_of subnet_data))))"

text \<open>\<^verbatim>\<open>df['netuid'].unique()\<close>: the values in the order of their first appearance.\<close>

fun unique :: "nat list \<Rightarrow> nat list" where
  "unique [] = []"
| "unique (x # xs) = x # unique (filter (\<lambda>y. y \<noteq> x) xs)"

text \<open>\<^verbatim>\<open>df[df['netuid'] == netuid]\<close>\<close>

definition subnet_rows :: "row list \<Rightarrow> nat \<Rightarrow> row list" where
  "subnet_rows df n = filter (\<lambda>r. netuid r = n) df"

definition metrics_step :: "row list \<Rightarrow> nat \<Rightarrow> metric_record dict \<Rightarrow> metric_record dict" where
  "metrics_step df n metrics =
     (case subnet_metrics (subnet_rows df n) of
        None \<Rightarrow> metrics
      | Some m \<Rightarrow> AList.update n m metrics)"

definition calculate_performance_metrics :: "row list \<Rightarrow> metric_record dict" where
  "calculate_performance_metrics df = fold (metrics_step df) (unique (map netuid df)) []"

text \<open>Example data: the rows of subnet \<open>n\<close> with the given prices on successive days.\<close>

definition price_row :: "nat \<Rightarrow> nat \<Rightarrow> real \<Rightarrow> row" where
  "price_row n d p =
     \<lparr> netuid = n, date = d, price = p, emission = 0, weight = 0, tao_in = 0, alpha_in = 0 \<rparr>"

definition price_rows :: "nat \<Rightarrow> real list \<Rightarrow> row list" where
  "price_rows n ps = map (\<lambda>(d, p). price_row n d p) (zip [0 ..< length ps] ps)"

subsection \<open>\<^verbatim>\<open>calculate_optimal_allocation\<close>\<close>

text \<open>
  The first loop over \<^verbatim>\<open>selected_subnets\<close>: the state is the pair of
  \<^verbatim>\<open>inv_vol_weights\<close> and \<^verbatim>\<open>total_inv_vol\<close>.
\<close>

definition inv_vol_step ::
  "metric_record dict \<Rightarrow> nat \<Rightarrow> real dict \<times> real \<Rightarrow> real dict \<times> real" where
  "inv_vol_step metrics n acc =
     (case map_of metrics n of
        None \<Rightarrow> acc
      | Some m \<Rightarrow>
          (let vol = max (volatility m) 0.01;
               inv_vol = 1 / vol
           in (AList.update n inv_vol (fst acc), snd acc + inv_vol)))"

text \<open>The second loop: the state is \<^verbatim>\<open>allocations\<close>.\<close>

definition alloc_step ::
  "optimizer \<Rightarrow> real dict \<Rightarrow> real \<Rightarrow> real \<Rightarrow> nat \<Rightarrow> real dict \<Rightarrow> real dict" where
  "alloc_step self inv_vol_weights total_inv_vol total_risk_budget n allocations =
     (case map_of inv_vol_weights n of
        None \<Rightarrow> allocations
      | Some w \<Rightarrow>
          if total_inv_vol > 0 then
            (let base_allocation = (w / total_inv_vol) * total_risk_budget;
                 allocation = max (min_allocation self)
                                  (min (max_allocation self) base_allocation)
             in AList.update n allocation allocations)
          else allocations)"

text \<open>The allocations after both loops, before the normalisation.\<close>

definition clamped_allocations ::
  "optimizer \<Rightarrow> nat list \<Rightarrow> metric_record dict \<Rightarrow> real dict" where
  "clamped_allocations self ranked_subnets metrics =
     (let selected_subnets = take (max_subnets self) ranked_subnets;
          total_risk_budget = 1 - cash_allocation self;
          acc = fold (inv_vol_step metrics) selected_subnets ([], 0)
      in fold (alloc_step self (fst acc) (snd acc) total_risk_budget) selected_subnets [])"

text \<open>
  \<^verbatim>\<open>if total_allocated > total_risk_budget: ... allocations = {k: v * scale_factor ...}\<close>
\<close>

definition shrink_allocations :: "real \<Rightarrow> real dict \<Rightarrow> real dict" where
  "shrink_allocations total_risk_budget allocations =
     (let total_allocated = sum_list (map snd allocations)
      in if total_allocated > total_risk_budget then
           (let scale_factor = total_risk_budget / total_allocated
            in map (\<lambda>(k, v). (k, v * scale_factor)) allocations)
         else allocations)"

text \<open>
  \<^verbatim>\<open>remaining = 1.0 - sum(allocations.values()); if remaining > 0.01: allocations[0] = remaining\<close>
\<close>

definition add_cash :: "real dict \<Rightarrow> real dict" where
  "add_cash allocations =
     (let remaining = 1 - sum_list (map snd allocations)
      in if remaining > 0.01 then AList.update 0 remaining allocations else allocations)"

definition calculate_optimal_allocation ::
  "optimizer \<Rightarrow> nat list \<Rightarrow> metric_record dict \<Rightarrow> real dict" where
  "calculate_optimal_allocation self ranked_subnets metrics =
     (if ranked_subnets = [] \<or> metrics = [] then []
      else add_cash (shrink_allocations (1 - cash_allocation self)
                       (clamped_allocations self ranked_subnets metrics)))"

text \<open>
  The proportional shrink runs when the function gets past its first test and the
  clamped allocations add up to more than \<^verbatim>\<open>total_risk_budget\<close>.
\<close>

definition shrink_executed :: "optimizer \<Rightarrow> nat list \<Rightarrow> metric_record dict \<Rightarrow> bool" where
  "shrink_executed self ranked_subnets metrics =
     (ranked_subnets \<noteq> [] \<and> metrics \<noteq> []
      \<and> sum_list (map snd (clamped_allocations self ranked_subnets metrics))
          > 1 - cash_allocation self)"

text \<open>The entries of an allocation map other than the cash entry, whose key is 0.\<close>

definition non_cash :: "real dict \<Rightarrow> real dict" where
  "non_cash allocations = filter (\<lambda>kv. fst kv \<noteq> 0) allocations"

text \<open>
  The attributes that \<^verbatim>\<open>__init__\<close> sets to constants and that no method
  assigns afterwards.
\<close>

definition init_constants :: "optimizer \<Rightarrow> bool" where
  "init_constants self =
     (min_allocation self = 0.02 \<and> cash_allocation self = 0.05
      \<and> max_drawdown_limit self = 0.8 \<and> max_subnets self = 10)"

text \<open>
  Example data for the allocator: a metric record whose volatility is \<open>vol\<close>. The
  allocator reads no other field.
\<close>

definition record_with_volatility :: "real \<Rightarrow> metric_record" where
  "record_with_volatility vol =
     \<lparr> total_return = 0, volatility = vol, sharpe = 0, max_drawdown = Fin 0,
       win_rate = 0, profit_factor = NaN, kelly = Fin 0, mar = Fin 0, lsr = 0,
       odds = Fin 50, daily_return = Fin 0, composite_score = Fin 0,
       avg_emission = 0, avg_weight = 0, current_price = 1, data_points = 5 \<rparr>"

definition five_subnets :: "metric_record dict" where
  "five_subnets =
     [(3, record_with_volatility 0.01), (7, record_with_volatility 0.01),
      (12, record_with_volatility 0.01), (19, record_with_volatility 0.01),
      (64, record_with_volatility 1)]"

text \<open>The same allocator data with the first subnet under the key 0.\<close>

definition root_and_four :: "metric_record dict" where
  "root_and_four =
     [(0, record_with_volatility 0.01), (7, record_with_volatility 0.01),
      (12, record_with_volatility 0.01), (19, record_with_volatility 0.01),
      (64, record_with_volatility 1)]"

text \<open>
  \<^verbatim>\<open>DynamicStrategyOptimizer(max_allocation=0.01)\<close>: the constructor accepts a
  maximum below the minimum of 0.02.
\<close>

definition tight_optimizer :: optimizer where
  "tight_optimizer = init_optimizer 30 0.05 0.01"

section \<open>Properties of the rebalance test\<close>

lemma Max_insert_zero:
  fixes S :: "real set"
  assumes fin: "finite S" and ne: "S \<noteq> {}" and nn: "\<And>y. y \<in> S \<Longrightarrow> 0 \<le> y"
  shows "Max (insert 0 S) = Max S"
proof -
  have "Max (insert 0 S) = max 0 (Max S)"
    by (rule Max_insert [OF fin ne])
  moreover have "0 \<le> Max S"
  proof -
    obtain y where y: "y \<in> S" using ne by blast
    have "0 \<le> y" by (rule nn [OF y])
    also have "y \<le> Max S" by (rule Max_ge [OF fin y])
    finally show ?thesis .
  qed
  ultimately show ?thesis by (simp only: max_absorb2)
qed

lemma fold_max_step:
  "fold (\<lambda>k m. max m (f k)) ks (a::real) = Max (insert a (f ` set ks))"
proof (induction ks arbitrary: a)
  case Nil
  show ?case by simp
next
  case (Cons k ks)
  have fin: "finite (insert a (f ` set ks))" by simp
  have ne: "insert a (f ` set ks) \<noteq> {}" by simp
  have "fold (\<lambda>k m. max m (f k)) (k # ks) a = Max (insert (max a (f k)) (f ` set ks))"
    by (simp only: fold_simps Cons.IH)
  also have "\<dots> = Max (insert (f k) (insert a (f ` set ks)))"
  proof (cases "set ks = {}")
    case True
    then show ?thesis by (simp add: max.commute)
  next
    case False
    then have ne': "f ` set ks \<noteq> {}" by simp
    have fin': "finite (f ` set ks)" by simp
    have "Max (insert (max a (f k)) (f ` set ks)) = max (max a (f k)) (Max (f ` set ks))"
      by (rule Max_insert [OF fin' ne'])
    moreover have "Max (insert (f k) (insert a (f ` set ks))) = max (f k) (max a (Max (f ` set ks)))"
      by (simp only: Max_insert [OF fin ne] Max_insert [OF fin' ne'])
    ultimately show ?thesis by (simp only: max.assoc max.commute max.left_commute)
  qed
  also have "insert (f k) (insert a (f ` set ks)) = insert a (f ` set (k # ks))"
    by auto
  finally show ?case .
qed

lemma max_diff_of_eq_spec:
  assumes "current_strategy \<noteq> []"
  shows "max_diff_of current_strategy new_strategy = spec_max_diff current_strategy new_strategy"
proof -
  let ?f = "\<lambda>k. \<bar>dict_get new_strategy k 0 - dict_get current_strategy k 0\<bar>"
  let ?K = "fst ` set current_strategy \<union> fst ` set new_strategy"
  have step: "diff_step current_strategy new_strategy = (\<lambda>k m. max m (?f k))"
    by (simp add: diff_step_def fun_eq_iff)
  have keys: "set (all_subnets current_strategy new_strategy) = ?K"
    by (simp add: all_subnets_def)
  have "set current_strategy \<noteq> {}" using assms by simp
  then have ne: "?f ` ?K \<noteq> {}" by blast
  have fin: "finite (?f ` ?K)" by simp
  have nn: "\<And>y. y \<in> ?f ` ?K \<Longrightarrow> 0 \<le> y" by auto
  have "max_diff_of current_strategy new_strategy = Max (insert 0 (?f ` ?K))"
    unfolding max_diff_of_def step fold_max_step keys ..
  also have "\<dots> = Max (?f ` ?K)"
    by (rule Max_insert_zero [OF fin ne nn])
  finally show ?thesis by (simp only: spec_max_diff_def)
qed

lemma max_diff_of_same:
  "max_diff_of d d = 0"
proof -
  have step: "diff_step d d = (\<lambda>k m. max m 0)"
    by (simp add: diff_step_def fun_eq_iff)
  have "fold (\<lambda>k m. max m (0::real)) ks 0 = 0" for ks :: "nat list"
    by (induction ks) simp_all
  then show ?thesis by (simp only: max_diff_of_def step)
qed

lemma should_rebalance_no_cooldown:
  assumes "current_strategy \<noteq> []" and "new_strategy \<noteq> []"
    and "\<not> (case last_rebalance self of None \<Rightarrow> False | Some t \<Rightarrow> (now - t) / 3600 < 6)"
  shows "should_rebalance self now current_strategy new_strategy
         = (rebalance_threshold self \<le> spec_max_diff current_strategy new_strategy)"
  using assms by (simp add: should_rebalance_def max_diff_of_eq_spec)

text \<open>
  C4. For two non-empty allocation maps, when no time of a last rebalance is recorded
  or at least 6 hours have passed since it, \<open>should_rebalance\<close> accepts exactly when
  the largest absolute per-subnet difference, over the keys of both maps with a missing
  key counting as 0, is at least \<open>rebalance_threshold\<close>. In particular two identical
  maps are rejected under any positive threshold.
\<close>

theorem should_rebalance_iff_threshold:
  assumes "current_strategy \<noteq> []" and "new_strategy \<noteq> []"
    and "last_rebalance self = None \<or> (\<exists>t. last_rebalance self = Some t \<and> 6 \<le> (now - t) / 3600)"
  shows "(should_rebalance self now current_strategy new_strategy
            \<longleftrightarrow> rebalance_threshold self \<le> spec_max_diff current_strategy new_strategy)
         \<and> (current_strategy = new_strategy \<and> 0 < rebalance_threshold self
            \<longrightarrow> \<not> should_rebalance self now current_strategy new_strategy)"
proof -
  have nc: "\<not> (case last_rebalance self of None \<Rightarrow> False | Some t \<Rightarrow> (now - t) / 3600 < 6)"
    using assms(3) by (auto split: option.splits)
  have iff: "should_rebalance self now current_strategy new_strategy
         = (rebalance_threshold self \<le> spec_max_diff current_strategy new_strategy)"
    by (rule should_rebalance_no_cooldown [OF assms(1,2) nc])
  have same: "\<not> should_rebalance self now current_strategy new_strategy"
    if "current_strategy = new_strategy" and "0 < rebalance_threshold self"
    using that assms(1) nc by (simp add: should_rebalance_def max_diff_of_same)
  show ?thesis using iff same by blast
qed

theorem should_rebalance_iff_threshold_witness:
  "\<not> should_rebalance (default_optimizer\<lparr>last_rebalance := Some 0\<rparr>) 21600
        [(1, 0.5), (2, 0.5)] [(1, 0.5), (2, 0.5)]
   \<and> (should_rebalance (default_optimizer\<lparr>last_rebalance := Some 0\<rparr>) 21600
        [(1, 0.5), (2, 0.5)] [(1, 0.5), (2, 0.5)]
      \<longleftrightarrow> rebalance_threshold (default_optimizer\<lparr>last_rebalance := Some 0\<rparr>)
            \<le> spec_max_diff [(1, 0.5), (2, 0.5)] [(1, 0.5), (2, 0.5)])"
proof -
  let ?self = "default_optimizer\<lparr>last_rebalance := Some 0\<rparr>"
  let ?d = "[(1::nat, 0.5::real), (2, 0.5)]"
  have h1: "?d \<noteq> []" by simp
  have h3: "last_rebalance ?self = None
            \<or> (\<exists>t. last_rebalance ?self = Some t \<and> 6 \<le> (21600 - t) / 3600)"
    by simp
  have pos: "0 < rebalance_threshold ?self"
    by (simp add: default_optimizer_def init_optimizer_def)
  show ?thesis
    using should_rebalance_iff_threshold [OF h1 h1 h3] pos by blast
qed

text \<open>
  C5. For two non-empty allocation maps and a recorded time of the last rebalance, if
  fewer than 6 hours have passed since it and the caller's force flag is not set, the
  decision is to reject, whatever the two maps hold.
\<close>

theorem cooldown_dominates_threshold:
  assumes "current_strategy \<noteq> []" and "new_strategy \<noteq> []"
    and "last_rebalance self = Some t" and "(now - t) / 3600 < 6"
    and "\<not> force_rebalance"
  shows "\<not> rebalance_decision force_rebalance self now current_strategy new_strategy"
  using assms by (simp add: rebalance_decision_def should_rebalance_def)

theorem cooldown_dominates_threshold_witness:
  "\<not> rebalance_decision False (default_optimizer\<lparr>last_rebalance := Some 0\<rparr>) 3600
        [(1, 0.95), (2, 0.05)] [(1, 0.05), (2, 0.95)]"
proof -
  let ?self = "default_optimizer\<lparr>last_rebalance := Some 0\<rparr>"
  have h1: "[(1::nat, 0.95::real), (2, 0.05)] \<noteq> []" by simp
  have h2: "[(1::nat, 0.05::real), (2, 0.95)] \<noteq> []" by simp
  have h3: "last_rebalance ?self = Some 0" by simp
  have h4: "((3600::real) - 0) / 3600 < 6" by simp
  have h5: "\<not> False" by simp
  show ?thesis
    by (rule cooldown_dominates_threshold [OF h1 h2 h3 h4 h5])
qed

text \<open>
  C6. With an empty current allocation map the decision is to accept, whatever time has
  passed since the last rebalance and whatever the proposed map is.
\<close>

theorem empty_current_accepts:
  "should_rebalance self now [] new_strategy
   \<and> rebalance_decision force_rebalance self now [] new_strategy"
  by (simp add: rebalance_decision_def should_rebalance_def)

theorem empty_current_accepts_witness:
  "should_rebalance (default_optimizer\<lparr>last_rebalance := Some 0\<rparr>) 60 [] [(1, 1.0)]"
  using empty_current_accepts
    [of "default_optimizer\<lparr>last_rebalance := Some 0\<rparr>" 60 "[(1, 1.0)]" False]
  by simp

text \<open>
  C10. For two non-empty allocation maps, when no time of a last rebalance has been
  recorded, the time of the call plays no part: \<open>should_rebalance\<close> accepts exactly
  when the largest absolute per-subnet difference is at least \<open>rebalance_threshold\<close>.
\<close>

theorem unset_last_rebalance_skips_cooldown:
  assumes "current_strategy \<noteq> []" and "new_strategy \<noteq> []"
    and "last_rebalance self = None"
  shows "should_rebalance self now current_strategy new_strategy
         \<longleftrightarrow> rebalance_threshold self \<le> spec_max_diff current_strategy new_strategy"
proof -
  have nc: "\<not> (case last_rebalance self of None \<Rightarrow> False | Some t \<Rightarrow> (now - t) / 3600 < 6)"
    using assms(3) by simp
  show ?thesis
    by (rule should_rebalance_no_cooldown [OF assms(1,2) nc])
qed

theorem unset_last_rebalance_skips_cooldown_witness:
  "should_rebalance default_optimizer 0 [(1, 0.95), (2, 0.05)] [(1, 0.05), (3, 0.95)]
   \<longleftrightarrow> rebalance_threshold default_optimizer
         \<le> spec_max_diff [(1, 0.95), (2, 0.05)] [(1, 0.05), (3, 0.95)]"
proof -
  have h1: "[(1::nat, 0.95::real), (2, 0.05)] \<noteq> []" by simp
  have h2: "[(1::nat, 0.05::real), (3, 0.95)] \<noteq> []" by simp
  have h3: "last_rebalance default_optimizer = None"
    by (simp add: default_optimizer_def init_optimizer_def)
  show ?thesis
    by (rule unset_last_rebalance_skips_cooldown [OF h1 h2 h3])
qed

section \<open>Properties of the allocator\<close>

lemma update_fresh_append:
  "k \<notin> fst ` set al \<Longrightarrow> AList.update k v al = al @ [(k, v)]"
  by (induction al) auto

lemma update_values_pred:
  assumes "\<forall>kv \<in> set al. P (snd kv)" and "P v"
  shows "\<forall>kv \<in> set (AList.update k v al). P (snd kv)"
  using assms by (induction al) auto

lemma update_other_entries:
  "(k', v') \<in> set (AList.update k v al) \<Longrightarrow> k' \<noteq> k \<Longrightarrow> (k', v') \<in> set al"
  by (induction al) (auto split: if_splits)

lemma alloc_step_keys:
  "fst ` set (alloc_step self w t b n al) \<subseteq> insert n (fst ` set al)"
  by (auto simp: alloc_step_def Let_def AList.dom_update split: option.splits)

lemma fold_alloc_step_keys:
  "fst ` set (fold (alloc_step self w t b) ns al) \<subseteq> set ns \<union> fst ` set al"
proof (induction ns arbitrary: al)
  case Nil
  show ?case by simp
next
  case (Cons n ns)
  have "fst ` set (fold (alloc_step self w t b) ns (alloc_step self w t b n al))
        \<subseteq> set ns \<union> fst ` set (alloc_step self w t b n al)"
    by (rule Cons.IH)
  also have "\<dots> \<subseteq> set ns \<union> insert n (fst ` set al)"
    using alloc_step_keys [of self w t b n al] by blast
  finally show ?case by auto
qed

lemma clamped_allocations_keys:
  "fst ` set (clamped_allocations self ranked_subnets metrics) \<subseteq> set ranked_subnets"
proof -
  have "fst ` set (clamped_allocations self ranked_subnets metrics)
        \<subseteq> set (take (max_subnets self) ranked_subnets)"
    using fold_alloc_step_keys [where al = "[]"]
    by (simp add: clamped_allocations_def Let_def)
  then show ?thesis using set_take_subset by fastforce
qed

lemma alloc_step_pred:
  assumes al: "\<forall>kv \<in> set al. P (snd kv)"
    and clamp: "\<And>x. P (max (min_allocation self) (min (max_allocation self) x))"
  shows "\<forall>kv \<in> set (alloc_step self w t b n al). P (snd kv)"
proof (cases "map_of w n")
  case None
  then have "alloc_step self w t b n al = al" by (simp add: alloc_step_def)
  then show ?thesis using al by (simp only:)
next
  case (Some x)
  show ?thesis
  proof (cases "t > 0")
    case False
    then have "alloc_step self w t b n al = al" using Some by (simp add: alloc_step_def)
    then show ?thesis using al by (simp only:)
  next
    case True
    let ?a = "max (min_allocation self) (min (max_allocation self) (x / t * b))"
    have eq: "alloc_step self w t b n al = AList.update n ?a al"
      using Some True by (simp add: alloc_step_def Let_def)
    have "\<forall>kv \<in> set (AList.update n ?a al). P (snd kv)"
      by (rule update_values_pred [OF al clamp])
    then show ?thesis by (simp only: eq)
  qed
qed

lemma fold_alloc_step_pred:
  assumes clamp: "\<And>x. P (max (min_allocation self) (min (max_allocation self) x))"
    and al: "\<forall>kv \<in> set al. P (snd kv)"
  shows "\<forall>kv \<in> set (fold (alloc_step self w t b) ns al). P (snd kv)"
  using al
proof (induction ns arbitrary: al)
  case Nil
  then show ?case by simp
next
  case (Cons n ns)
  have "\<forall>kv \<in> set (alloc_step self w t b n al). P (snd kv)"
    by (rule alloc_step_pred [OF Cons.prems clamp])
  then have "\<forall>kv \<in> set (fold (alloc_step self w t b) ns (alloc_step self w t b n al)).
               P (snd kv)"
    by (rule Cons.IH)
  then show ?case by simp
qed

lemma clamp_in_range:
  fixes lo hi x :: real
  assumes "lo \<le> hi"
  shows "lo \<le> max lo (min hi x) \<and> max lo (min hi x) \<le> hi"
  using assms by simp

lemma clamped_allocations_bounds:
  assumes "min_allocation self \<le> max_allocation self"
    and "(k, v) \<in> set (clamped_allocations self ranked_subnets metrics)"
  shows "min_allocation self \<le> v \<and> v \<le> max_allocation self"
proof -
  let ?P = "\<lambda>v. min_allocation self \<le> v \<and> v \<le> max_allocation self"
  have clamp: "\<And>x. ?P (max (min_allocation self) (min (max_allocation self) x))"
    by (rule clamp_in_range [OF assms(1)])
  have nil: "\<forall>kv \<in> set []. ?P (snd kv)" by simp
  have "\<forall>kv \<in> set (clamped_allocations self ranked_subnets metrics). ?P (snd kv)"
    unfolding clamped_allocations_def Let_def
    by (rule fold_alloc_step_pred [where P = ?P, OF clamp nil])
  then have "?P (snd (k, v))" using assms(2) by (rule bspec)
  then show ?thesis by simp
qed

lemma sum_list_scaled:
  "sum_list (map snd (map (\<lambda>(k, v). (k, v * c)) al)) = sum_list (map snd al) * (c::real)"
  by (induction al) (auto simp: algebra_simps)

lemma shrink_allocations_sum:
  assumes "0 \<le> b"
  shows "sum_list (map snd (shrink_allocations b al))
         = (if sum_list (map snd al) > b then b else sum_list (map snd al))"
proof (cases "sum_list (map snd al) > b")
  case True
  define s where "s = sum_list (map snd al)"
  have nz: "s \<noteq> 0" using True assms by (simp add: s_def)
  have "shrink_allocations b al = map (\<lambda>(k, v). (k, v * (b / s))) al"
    using True by (simp add: shrink_allocations_def Let_def s_def)
  then have "sum_list (map snd (shrink_allocations b al)) = s * (b / s)"
    by (simp only: sum_list_scaled s_def)
  also have "\<dots> = b" using nz by simp
  finally show ?thesis using True by simp
next
  case False
  then show ?thesis by (simp add: shrink_allocations_def Let_def)
qed

lemma shrink_allocations_keys:
  "fst ` set (shrink_allocations b al) = fst ` set al"
  by (force simp: shrink_allocations_def Let_def)

lemma shrink_allocations_entries:
  assumes "0 \<le> b" and "sum_list (map snd al) > b"
    and "(k, v) \<in> set (shrink_allocations b al)"
  shows "\<exists>v0. (k, v0) \<in> set al \<and> v = v0 * (b / sum_list (map snd al))"
  using assms by (auto simp: shrink_allocations_def Let_def)

lemma add_cash_sum:
  assumes "0 \<notin> fst ` set al" and "1 - sum_list (map snd al) > 0.01"
  shows "sum_list (map snd (add_cash al)) = 1"
  using assms by (simp add: add_cash_def Let_def update_fresh_append)

lemma add_cash_non_cash:
  assumes "0 \<notin> fst ` set al"
  shows "non_cash (add_cash al) = al"
proof -
  have f: "filter (\<lambda>kv. fst kv \<noteq> 0) al = al"
    using assms by (induction al) auto
  show ?thesis
    using assms f by (simp add: add_cash_def Let_def non_cash_def update_fresh_append)
qed

lemma add_cash_entries:
  "(k, v) \<in> set (add_cash al) \<Longrightarrow> k \<noteq> 0 \<Longrightarrow> (k, v) \<in> set al"
  by (auto simp: add_cash_def Let_def dest: update_other_entries split: if_splits)

lemma non_cash_calculate:
  assumes "ranked_subnets \<noteq> []" and "metrics \<noteq> []" and "0 \<notin> set ranked_subnets"
  shows "non_cash (calculate_optimal_allocation self ranked_subnets metrics)
         = shrink_allocations (1 - cash_allocation self)
             (clamped_allocations self ranked_subnets metrics)"
proof -
  have "0 \<notin> fst ` set (clamped_allocations self ranked_subnets metrics)"
    using clamped_allocations_keys [of self ranked_subnets metrics] assms(3) by blast
  then have "0 \<notin> fst ` set (shrink_allocations (1 - cash_allocation self)
                               (clamped_allocations self ranked_subnets metrics))"
    by (simp add: shrink_allocations_keys)
  then show ?thesis
    using assms(1,2) by (simp add: calculate_optimal_allocation_def add_cash_non_cash)
qed

lemma non_cash_add_cash_subset:
  assumes "kv \<in> set (non_cash (add_cash al))"
  shows "kv \<in> set al"
proof -
  have "(fst kv, snd kv) \<in> set (add_cash al)" and "fst kv \<noteq> 0"
    using assms by (simp_all add: non_cash_def)
  then have "(fst kv, snd kv) \<in> set al" by (rule add_cash_entries)
  then show ?thesis by simp
qed

lemma default_init_constants: "init_constants default_optimizer"
  by (simp add: init_constants_def default_optimizer_def init_optimizer_def)

lemma default_fields:
  "min_allocation default_optimizer = 0.02"
  "max_allocation default_optimizer = 0.25"
  "cash_allocation default_optimizer = 0.05"
  "max_subnets default_optimizer = 10"
  by (simp_all add: default_optimizer_def init_optimizer_def)

lemma tight_fields:
  "min_allocation tight_optimizer = 0.02"
  "max_allocation tight_optimizer = 0.01"
  "cash_allocation tight_optimizer = 0.05"
  "max_subnets tight_optimizer = 10"
  by (simp_all add: tight_optimizer_def init_optimizer_def)

lemma tight_inv_vol:
  "fold (inv_vol_step [(7, record_with_volatility 0.5)])
      (take (max_subnets tight_optimizer) [7]) ([], 0)
   = ([(7, 2)], 2)"
  by (simp add: tight_fields inv_vol_step_def record_with_volatility_def Let_def)

lemma tight_clamped:
  "clamped_allocations tight_optimizer [7] [(7, record_with_volatility 0.5)]
   = [(7, 0.02)]"
  unfolding clamped_allocations_def Let_def tight_inv_vol
  by (simp add: tight_fields alloc_step_def Let_def)

lemma tight_allocation:
  "calculate_optimal_allocation tight_optimizer [7]
     [(7, record_with_volatility 0.5)]
   = [(7, 0.02), (0, 0.98)]"
  unfolding calculate_optimal_allocation_def tight_clamped
  by (simp add: tight_fields shrink_allocations_def add_cash_def Let_def)

lemma tight_no_shrink:
  "\<not> shrink_executed tight_optimizer [7] [(7, record_with_volatility 0.5)]"
  unfolding shrink_executed_def tight_clamped
  by (simp add: tight_fields)

lemma root_inv_vol:
  "fold (inv_vol_step root_and_four) (take (max_subnets default_optimizer) [0, 7, 12, 19, 64])
      ([], 0)
   = ([(0, 100), (7, 100), (12, 100), (19, 100), (64, 1)], 401)"
  by (simp add: default_fields inv_vol_step_def root_and_four_def record_with_volatility_def
      Let_def)

lemma root_clamped:
  "clamped_allocations default_optimizer [0, 7, 12, 19, 64] root_and_four
   = [(0, 95 / 401), (7, 95 / 401), (12, 95 / 401), (19, 95 / 401), (64, 0.02)]"
  unfolding clamped_allocations_def Let_def root_inv_vol
  by (simp add: default_fields alloc_step_def Let_def)

lemma root_shrink:
  "shrink_executed default_optimizer [0, 7, 12, 19, 64] root_and_four"
  unfolding shrink_executed_def root_clamped
  by (simp add: default_fields root_and_four_def)

lemma root_allocation:
  "calculate_optimal_allocation default_optimizer [0, 7, 12, 19, 64] root_and_four
   = [(0, 0.05), (7, 95 / 401 * (0.95 / (19401 / 20050))),
      (12, 95 / 401 * (0.95 / (19401 / 20050))), (19, 95 / 401 * (0.95 / (19401 / 20050))),
      (64, 0.02 * (0.95 / (19401 / 20050)))]"
  unfolding calculate_optimal_allocation_def root_clamped
  by (simp add: default_fields root_and_four_def shrink_allocations_def add_cash_def Let_def)

lemma root_non_cash_sum:
  "sum_list (map snd (non_cash
      (calculate_optimal_allocation default_optimizer [0, 7, 12, 19, 64] root_and_four)))
   = 278369 / 388020"
  unfolding root_allocation by (simp add: non_cash_def)

text \<open>
  C2, as stated, fails in two ways. With \<^verbatim>\<open>max_allocation = 0.01\<close>, below the
  constant \<^verbatim>\<open>min_allocation = 0.02\<close>, the single ranked subnet gets 0.02: the
  shrink has not run and the entry exceeds \<^verbatim>\<open>max_allocation\<close>. With the default
  optimizer and a ranked subnet under the key 0, the shrink runs and the cash
  assignment then overwrites that subnet's entry: the entries other than the one under
  key 0 add up to \<open>278369 / 388020\<close>, not to \<^verbatim>\<open>total_risk_budget = 0.95\<close>.
\<close>

theorem allocation_bounds_counterexample:
  "calculate_optimal_allocation tight_optimizer [7] [(7, record_with_volatility 0.5)]
     = [(7, 0.02), (0, 0.98)]
   \<and> \<not> shrink_executed tight_optimizer [7] [(7, record_with_volatility 0.5)]
   \<and> max_allocation tight_optimizer = 0.01
   \<and> shrink_executed default_optimizer [0, 7, 12, 19, 64] root_and_four
   \<and> sum_list (map snd (non_cash
        (calculate_optimal_allocation default_optimizer [0, 7, 12, 19, 64] root_and_four)))
      = 278369 / 388020
   \<and> 1 - cash_allocation default_optimizer = 0.95"
  by (simp only: tight_allocation tight_no_shrink tight_fields root_shrink root_non_cash_sum
      default_fields simp_thms) simp

text \<open>
  C2, amended. For an optimizer with the constants of \<^verbatim>\<open>__init__\<close> and a
  \<^verbatim>\<open>max_allocation\<close> not below \<^verbatim>\<open>min_allocation\<close>: no entry of the
  result other than the cash entry exceeds \<^verbatim>\<open>max_allocation\<close>; when the
  proportional shrink has not run, none is below \<^verbatim>\<open>min_allocation\<close>; when it
  has run, and no ranked subnet uses the cash key 0, these entries add up to
  \<^verbatim>\<open>total_risk_budget = 1 - cash_allocation\<close>, exactly so in exact arithmetic.
\<close>

theorem allocation_within_bounds:
  assumes "init_constants self"
    and "min_allocation self \<le> max_allocation self"
  shows "(\<forall>kv \<in> set (non_cash (calculate_optimal_allocation self ranked_subnets metrics)).
            snd kv \<le> max_allocation self
            \<and> (\<not> shrink_executed self ranked_subnets metrics
                 \<longrightarrow> min_allocation self \<le> snd kv))
         \<and> (shrink_executed self ranked_subnets metrics \<and> 0 \<notin> set ranked_subnets
              \<longrightarrow> sum_list (map snd (non_cash
                     (calculate_optimal_allocation self ranked_subnets metrics)))
                   = 1 - cash_allocation self)"
proof (cases "ranked_subnets = [] \<or> metrics = []")
  case True
  then show ?thesis
    by (auto simp: calculate_optimal_allocation_def non_cash_def shrink_executed_def)
next
  case False
  then have ne: "ranked_subnets \<noteq> []" "metrics \<noteq> []" by simp_all
  let ?b = "1 - cash_allocation self"
  let ?C = "clamped_allocations self ranked_subnets metrics"
  let ?s = "sum_list (map snd ?C)"
  let ?out = "calculate_optimal_allocation self ranked_subnets metrics"
  have b: "?b = 95 / 100" and mn: "min_allocation self = 2 / 100"
    using assms(1) by (simp_all add: init_constants_def)
  have b0: "0 \<le> ?b" unfolding b by simp
  have out: "?out = add_cash (shrink_allocations ?b ?C)"
    using ne by (simp add: calculate_optimal_allocation_def)
  have sub: "kv \<in> set (shrink_allocations ?b ?C)" if "kv \<in> set (non_cash ?out)" for kv
    using that unfolding out by (rule non_cash_add_cash_subset)
  have ex: "shrink_executed self ranked_subnets metrics \<longleftrightarrow> ?s > ?b"
    using ne by (simp add: shrink_executed_def)
  have total: "sum_list (map snd (non_cash ?out)) = ?b"
    if "?s > ?b" and "0 \<notin> set ranked_subnets"
  proof -
    have "non_cash ?out = shrink_allocations ?b ?C"
      by (rule non_cash_calculate [OF ne that(2)])
    then show ?thesis
      using shrink_allocations_sum [OF b0, of ?C] that(1) by simp
  qed
  show ?thesis
  proof (cases "?s > ?b")
    case True
    have spos: "0 < ?s" using True b by linarith
    have bound: "snd kv \<le> max_allocation self" if kv: "kv \<in> set (non_cash ?out)" for kv
    proof -
      have "(fst kv, snd kv) \<in> set (shrink_allocations ?b ?C)" using sub [OF kv] by simp
      then obtain v0 where v0: "(fst kv, v0) \<in> set ?C" and eq: "snd kv = v0 * (?b / ?s)"
        using shrink_allocations_entries [OF b0 True] by blast
      have v0b: "min_allocation self \<le> v0 \<and> v0 \<le> max_allocation self"
        by (rule clamped_allocations_bounds [OF assms(2) v0])
      have v0nn: "0 \<le> v0" using v0b mn by linarith
      have "?b / ?s \<le> 1" using True spos by simp
      then have "v0 * (?b / ?s) \<le> v0 * 1"
        using v0nn by (rule mult_left_mono)
      then show ?thesis using eq v0b by linarith
    qed
    show ?thesis using True ex total bound by simp
  next
    case False
    then have same: "shrink_allocations ?b ?C = ?C"
      by (simp add: shrink_allocations_def Let_def)
    have bound: "min_allocation self \<le> snd kv \<and> snd kv \<le> max_allocation self"
      if kv: "kv \<in> set (non_cash ?out)" for kv
    proof -
      have "(fst kv, snd kv) \<in> set ?C" using sub [OF kv] same by simp
      then show ?thesis by (rule clamped_allocations_bounds [OF assms(2)])
    qed
    show ?thesis using False ex bound by simp
  qed
qed

lemma five_subnets_inv_vol:
  "fold (inv_vol_step five_subnets) (take (max_subnets default_optimizer) [3, 7, 12, 19, 64])
      ([], 0)
   = ([(3, 100), (7, 100), (12, 100), (19, 100), (64, 1)], 401)"
  by (simp add: default_fields inv_vol_step_def five_subnets_def record_with_volatility_def
      Let_def)

lemma five_subnets_clamped:
  "clamped_allocations default_optimizer [3, 7, 12, 19, 64] five_subnets
   = [(3, 95 / 401), (7, 95 / 401), (12, 95 / 401), (19, 95 / 401), (64, 0.02)]"
  unfolding clamped_allocations_def Let_def five_subnets_inv_vol
  by (simp add: default_fields alloc_step_def Let_def)

theorem allocation_within_bounds_witness:
  "shrink_executed default_optimizer [3, 7, 12, 19, 64] five_subnets
   \<and> sum_list (map snd (non_cash
        (calculate_optimal_allocation default_optimizer [3, 7, 12, 19, 64] five_subnets)))
      = 1 - cash_allocation default_optimizer
   \<and> list_all (\<lambda>kv. snd kv \<le> max_allocation default_optimizer)
        (non_cash
          (calculate_optimal_allocation default_optimizer [3, 7, 12, 19, 64] five_subnets))"
proof -
  have h2: "min_allocation default_optimizer \<le> max_allocation default_optimizer"
    by (simp add: default_fields)
  have h3: "0 \<notin> set [3, 7, 12, 19, 64::nat]" by simp
  have ex: "shrink_executed default_optimizer [3, 7, 12, 19, 64] five_subnets"
    unfolding shrink_executed_def five_subnets_clamped
    by (simp add: default_fields five_subnets_def)
  show ?thesis
    using allocation_within_bounds
      [OF default_init_constants h2, of "[3, 7, 12, 19, 64]" five_subnets] ex h3
    unfolding list_all_iff by blast
qed


text \<open>
  C3, as stated, fails: with a non-empty ranked list and an empty metrics mapping the
  allocator returns the empty map, whose values add up to 0.
\<close>

theorem allocation_sum_counterexample:
  "[1::nat] \<noteq> []
   \<and> calculate_optimal_allocation default_optimizer [1] [] = []
   \<and> sum_list (map snd (calculate_optimal_allocation default_optimizer [1] [])) = 0"
  by (simp add: calculate_optimal_allocation_def)

text \<open>
  C3, amended. For an optimizer with the constants of \<^verbatim>\<open>__init__\<close>, a
  non-empty ranked list that does not use the cash key 0 and a non-empty metrics
  mapping, the values of the returned allocation map, the cash entry included, add up
  to exactly 1.
\<close>

theorem allocation_sums_to_one:
  assumes "init_constants self"
    and "ranked_subnets \<noteq> []" and "metrics \<noteq> []"
    and "0 \<notin> set ranked_subnets"
  shows "sum_list (map snd (calculate_optimal_allocation self ranked_subnets metrics)) = 1"
proof -
  let ?b = "1 - cash_allocation self"
  let ?C = "clamped_allocations self ranked_subnets metrics"
  let ?S = "shrink_allocations ?b ?C"
  have b: "?b = 95 / 100"
    using assms(1) by (simp add: init_constants_def)
  have b0: "0 \<le> ?b" unfolding b by simp
  have "0 \<notin> fst ` set ?C"
    using clamped_allocations_keys [of self ranked_subnets metrics] assms(4) by blast
  then have fresh: "0 \<notin> fst ` set ?S"
    by (simp add: shrink_allocations_keys)
  have "sum_list (map snd ?S) \<le> ?b"
    using shrink_allocations_sum [OF b0, of ?C] by (simp split: if_splits)
  then have "sum_list (map snd ?S) \<le> 95 / 100" by (simp only: b)
  then have rem: "1 - sum_list (map snd ?S) > 0.01" by simp
  have "calculate_optimal_allocation self ranked_subnets metrics = add_cash ?S"
    using assms(2,3) by (simp add: calculate_optimal_allocation_def)
  then show ?thesis
    using add_cash_sum [OF fresh rem] by (simp only:)
qed

theorem allocation_sums_to_one_witness:
  "sum_list (map snd (calculate_optimal_allocation default_optimizer [3, 7]
      [(3, record_with_volatility 0.5), (7, record_with_volatility 0.2)])) = 1"
proof -
  have h2: "[3, 7::nat] \<noteq> []" by simp
  have h3: "[(3::nat, record_with_volatility 0.5), (7, record_with_volatility 0.2)] \<noteq> []"
    by simp
  have h4: "0 \<notin> set [3, 7::nat]" by simp
  show ?thesis
    by (rule allocation_sums_to_one [OF default_init_constants h2 h3 h4])
qed

section \<open>Properties of the metrics calculation\<close>

lemma price_rows_5:
  "price_rows n [a, b, c, d, e]
   = [price_row n 0 a, price_row n 1 b, price_row n 2 c, price_row n 3 d, price_row n 4 e]"
  by (simp add: price_rows_def upt_rec eval_nat_numeral)

lemma prices_of_price_rows_5:
  "prices_of (price_rows n [a, b, c, d, e]) = [a, b, c, d, e]"
  by (simp add: prices_of_def price_rows_5 price_row_def)

lemma returns_doubling: "returns_of [1, 2, 4, 8, 16] = [1, 1, 1, 1]"
  by (simp add: returns_of_def diff_over_prev_def)

lemma returns_crash: "returns_of [1, 0, 0, 0, 0] = [- 1]"
  by (simp add: returns_of_def diff_over_prev_def inf_of_sign_def)

lemma subnet_metrics_doubling:
  "subnet_metrics (price_rows 3 [1, 2, 4, 8, 16])
   = Some (metrics_entry (sort_key date (price_rows 3 [1, 2, 4, 8, 16])) [1, 2, 4, 8, 16] [1, 1, 1, 1])"
  unfolding subnet_metrics_def prices_of_price_rows_5 returns_doubling
  by (simp add: price_rows_def)

lemma subnet_metrics_crash:
  "subnet_metrics (price_rows 3 [1, 0, 0, 0, 0])
   = Some (metrics_entry (sort_key date (price_rows 3 [1, 0, 0, 0, 0])) [1, 0, 0, 0, 0] [- 1])"
  unfolding subnet_metrics_def prices_of_price_rows_5 returns_crash
  by (simp add: price_rows_def)

lemma filter_price_rows_5:
  "subnet_rows (price_rows n [a, b, c, d, e]) n = price_rows n [a, b, c, d, e]"
  by (simp add: subnet_rows_def price_rows_5 price_row_def)

lemma unique_price_rows_5:
  "unique (map netuid (price_rows n [a, b, c, d, e])) = [n]"
  by (simp add: price_rows_5 price_row_def)

lemma calc_doubling:
  "calculate_performance_metrics (price_rows 3 [1, 2, 4, 8, 16])
   = [(3, metrics_entry (sort_key date (price_rows 3 [1, 2, 4, 8, 16])) [1, 2, 4, 8, 16] [1, 1, 1, 1])]"
  unfolding calculate_performance_metrics_def unique_price_rows_5
  by (simp add: metrics_step_def filter_price_rows_5 subnet_metrics_doubling)

lemma max_drawdown_crash: "max_drawdown_of [- 1] = NaN"
  by (simp add: max_drawdown_of_def drawdown_of_def cumprod_def inf_of_sign_def)

lemma update_entries:
  "(k', v') \<in> set (AList.update k v al) \<Longrightarrow> (k' = k \<and> v' = v) \<or> (k', v') \<in> set al"
  by (induction al) (auto split: if_splits)

lemma metrics_step_entries:
  assumes "(k, m) \<in> set (metrics_step df n acc)"
  shows "(k, m) \<in> set acc \<or> subnet_metrics (subnet_rows df k) = Some m"
proof (cases "subnet_metrics (subnet_rows df n)")
  case None
  then show ?thesis using assms by (simp add: metrics_step_def)
next
  case (Some m')
  then have "(k, m) \<in> set (AList.update n m' acc)"
    using assms by (simp add: metrics_step_def)
  then have "(k = n \<and> m = m') \<or> (k, m) \<in> set acc" by (rule update_entries)
  then show ?thesis using Some by auto
qed

lemma fold_metrics_step_entries:
  assumes "(k, m) \<in> set (fold (metrics_step df) ns acc)"
  shows "(k, m) \<in> set acc \<or> subnet_metrics (subnet_rows df k) = Some m"
  using assms
proof (induction ns arbitrary: acc)
  case Nil
  then show ?case by simp
next
  case (Cons n ns)
  then have "(k, m) \<in> set (fold (metrics_step df) ns (metrics_step df n acc))" by simp
  then have "(k, m) \<in> set (metrics_step df n acc)
             \<or> subnet_metrics (subnet_rows df k) = Some m"
    by (rule Cons.IH)
  then show ?case using metrics_step_entries by blast
qed

lemma calculate_performance_metrics_entry:
  assumes "(n, m) \<in> set (calculate_performance_metrics df)"
  shows "subnet_metrics (subnet_rows df n) = Some m"
  using fold_metrics_step_entries [of n m df "unique (map netuid df)" "[]"] assms
  by (simp add: calculate_performance_metrics_def)

lemma subnet_metrics_SomeD:
  assumes "subnet_metrics subnet_data = Some m"
  shows "5 \<le> length subnet_data"
    and "\<not> list_all (\<lambda>p. p = 0) (prices_of subnet_data)"
    and "returns_of (prices_of subnet_data) \<noteq> []"
    and "m = metrics_entry (sort_key date subnet_data) (prices_of subnet_data)
               (returns_of (prices_of subnet_data))"
  using assms by (auto simp: subnet_metrics_def split: if_splits)

lemma length_finite_only: "length (finite_only xs) \<le> length xs"
  by (induction xs rule: finite_only.induct) auto

lemma length_returns_of: "length (returns_of prices) \<le> length prices - 1"
proof -
  have "length (returns_of prices) \<le> length (diff_over_prev prices)"
    unfolding returns_of_def by (rule length_finite_only)
  also have "\<dots> = length prices - 1"
    by (simp add: diff_over_prev_def)
  finally show ?thesis .
qed

lemma sum_list_nonneg_real:
  fixes xs :: "real list"
  assumes "\<And>x. x \<in> set xs \<Longrightarrow> 0 \<le> x"
  shows "0 \<le> sum_list xs"
  using assms by (induction xs) auto

lemma np_std_nonneg: "0 \<le> np_std xs"
proof -
  have "0 \<le> sum_list (map (\<lambda>x. (x - mean xs)\<^sup>2) xs)"
    by (rule sum_list_nonneg_real) auto
  then have "0 \<le> mean (map (\<lambda>x. (x - mean xs)\<^sup>2) xs)"
    by (simp add: mean_def)
  then show ?thesis by (simp add: np_std_def)
qed

lemma volatility_of_nonneg: "0 \<le> volatility_of returns"
  by (simp add: volatility_of_def np_std_nonneg)

lemma fl_abs_not_negative: "fl_abs a = NaN \<or> fl_ge (fl_abs a) (Fin 0)"
  by (cases a) (simp_all add: fl_ge_def)

lemma odds_two_forms:
  "fl_add (Fin 50) (fl_mul (fl_div k (Fin 2)) (Fin 100)) = fl_add (Fin 50) (fl_mul k (Fin 50))"
  by (cases k) (simp_all add: inf_of_sign_def)

lemma calc_crash:
  "calculate_performance_metrics (price_rows 3 [1, 0, 0, 0, 0])
   = [(3, metrics_entry (sort_key date (price_rows 3 [1, 0, 0, 0, 0])) [1, 0, 0, 0, 0] [- 1])]"
  unfolding calculate_performance_metrics_def unique_price_rows_5
  by (simp add: metrics_step_def filter_price_rows_5 subnet_metrics_crash)

text \<open>
  C1, as stated, fails. Five rows with the prices 1, 2, 4, 8, 16 give four returns: a
  record is written and its \<open>data_points\<close> is 4. Five rows with the prices 1, 0, 0, 0, 0
  give the single finite return \<open>-1\<close>: the cumulative product and its running peak are 0,
  the drawdown is \<open>0 / 0\<close>, and the record's \<open>max_drawdown\<close> is NaN, which is not
  \<open>\<ge> 0\<close>.
\<close>

theorem metric_record_counterexample:
  "map (data_points \<circ> snd) (calculate_performance_metrics (price_rows 3 [1, 2, 4, 8, 16])) = [4]
   \<and> map (max_drawdown \<circ> snd) (calculate_performance_metrics (price_rows 3 [1, 0, 0, 0, 0]))
       = [NaN]
   \<and> \<not> fl_ge NaN (Fin 0)"
  unfolding calc_doubling calc_crash
  by (simp add: metrics_entry_def max_drawdown_crash fl_ge_def)

text \<open>
  C1, amended. If \<^verbatim>\<open>calculate_performance_metrics\<close> writes a record for a subnet,
  then the subnet has at least 5 rows, one of them with a non-zero price; the record's
  \<open>data_points\<close> is at least 1 and less than the number of rows, so it can be below 5;
  its \<open>volatility\<close> is not negative; and its \<open>max_drawdown\<close> is never negative: it is
  NaN or it is \<open>\<ge> 0\<close>. Finite values are exact reals here, so the statement about the
  volatility leaves overflow aside; the other statements do not depend on rounding.
\<close>

theorem metric_record_guarantees:
  assumes "(n, m) \<in> set (calculate_performance_metrics df)"
  shows "5 \<le> length (subnet_rows df n)
         \<and> (\<exists>r \<in> set (subnet_rows df n). price r \<noteq> 0)
         \<and> 1 \<le> data_points m
         \<and> data_points m < length (subnet_rows df n)
         \<and> 0 \<le> volatility m
         \<and> (max_drawdown m = NaN \<or> fl_ge (max_drawdown m) (Fin 0))"
proof -
  let ?rows = "subnet_rows df n"
  let ?prices = "prices_of ?rows"
  let ?returns = "returns_of ?prices"
  have some: "subnet_metrics ?rows = Some m"
    by (rule calculate_performance_metrics_entry [OF assms])
  note d = subnet_metrics_SomeD [OF some]
  have m: "m = metrics_entry (sort_key date ?rows) ?prices ?returns" by (rule d(4))
  have len: "5 \<le> length ?rows" by (rule d(1))
  have plen: "length ?prices = length ?rows" by (simp add: prices_of_def)
  have pset: "set ?prices = price ` set ?rows" by (simp add: prices_of_def)
  have "\<exists>p \<in> set ?prices. p \<noteq> 0" using d(2) by (simp add: list_all_iff)
  then have nz: "\<exists>r \<in> set ?rows. price r \<noteq> 0" unfolding pset by blast
  have dp: "data_points m = length ?returns" by (simp add: m metrics_entry_def)
  have dp1: "1 \<le> data_points m" using d(3) dp by (cases ?returns) simp_all
  have "length ?returns \<le> length ?prices - 1" by (rule length_returns_of)
  then have dp2: "data_points m < length ?rows" using dp plen len by linarith
  have vol: "0 \<le> volatility m" by (simp add: m metrics_entry_def volatility_of_nonneg)
  have "max_drawdown m = fl_abs (max_drawdown_of ?returns)"
    by (simp add: m metrics_entry_def)
  then have dd: "max_drawdown m = NaN \<or> fl_ge (max_drawdown m) (Fin 0)"
    using fl_abs_not_negative [of "max_drawdown_of ?returns"] by simp
  show ?thesis using len nz dp1 dp2 vol dd by blast
qed

lemma doubling_entry:
  "(3, metrics_entry (sort_key date (price_rows 3 [1, 2, 4, 8, 16])) [1, 2, 4, 8, 16] [1, 1, 1, 1])
   \<in> set (calculate_performance_metrics (price_rows 3 [1, 2, 4, 8, 16]))"
  unfolding calc_doubling by simp

theorem metric_record_guarantees_witness:
  "5 \<le> length (subnet_rows (price_rows 3 [1, 2, 4, 8, 16]) 3)
   \<and> 1 \<le> data_points
      (metrics_entry (sort_key date (price_rows 3 [1, 2, 4, 8, 16])) [1, 2, 4, 8, 16] [1, 1, 1, 1])
   \<and> data_points
      (metrics_entry (sort_key date (price_rows 3 [1, 2, 4, 8, 16])) [1, 2, 4, 8, 16] [1, 1, 1, 1])
      < length (subnet_rows (price_rows 3 [1, 2, 4, 8, 16]) 3)
   \<and> 0 \<le> volatility
      (metrics_entry (sort_key date (price_rows 3 [1, 2, 4, 8, 16])) [1, 2, 4, 8, 16] [1, 1, 1, 1])"
  using metric_record_guarantees [OF doubling_entry] by blast

text \<open>
  C8. In every record that \<^verbatim>\<open>calculate_performance_metrics\<close> writes, \<open>odds\<close> is
  \<open>50 + kelly * 50\<close> and \<open>composite_score\<close> is the product
  \<open>mar * lsr * odds * daily_return * 100\<close> of the record's own fields, taken from left
  to right with no bound on any factor.
\<close>

theorem odds_and_composite_score:
  assumes "(n, m) \<in> set (calculate_performance_metrics df)"
  shows "odds m = fl_add (Fin 50) (fl_mul (kelly m) (Fin 50))
         \<and> composite_score m
           = fl_mul (fl_mul (fl_mul (fl_mul (mar m) (Fin (lsr m))) (odds m)) (daily_return m))
                    (Fin 100)"
proof -
  let ?rows = "subnet_rows df n"
  have some: "subnet_metrics ?rows = Some m"
    by (rule calculate_performance_metrics_entry [OF assms])
  have m: "m = metrics_entry (sort_key date ?rows) (prices_of ?rows)
                 (returns_of (prices_of ?rows))"
    by (rule subnet_metrics_SomeD(4) [OF some])
  have "odds m = fl_add (Fin 50) (fl_mul (fl_div (kelly m) (Fin 2)) (Fin 100))"
    by (simp add: m metrics_entry_def odds_of_def)
  then have o: "odds m = fl_add (Fin 50) (fl_mul (kelly m) (Fin 50))"
    by (simp only: odds_two_forms)
  have c: "composite_score m
           = fl_mul (fl_mul (fl_mul (fl_mul (mar m) (Fin (lsr m))) (odds m)) (daily_return m))
                    (Fin 100)"
    by (simp add: m metrics_entry_def composite_score_of_def)
  show ?thesis using o c by (rule conjI)
qed

theorem odds_and_composite_score_witness:
  "odds (metrics_entry (sort_key date (price_rows 3 [1, 2, 4, 8, 16])) [1, 2, 4, 8, 16] [1, 1, 1, 1])
   = fl_add (Fin 50) (fl_mul (kelly
       (metrics_entry (sort_key date (price_rows 3 [1, 2, 4, 8, 16])) [1, 2, 4, 8, 16] [1, 1, 1, 1]))
       (Fin 50))"
  using odds_and_composite_score [OF doubling_entry] by (rule conjunct1)

text \<open>
  C9. When the \<open>avg_loss\<close> computed for a subnet is 0, the record written for it has
  \<open>profit_factor = +inf\<close>, and its \<open>kelly\<close> is the value of
  \<open>win_rate - (1 - win_rate) / profit_factor\<close>, which is the finite number \<open>win_rate\<close>:
  the division by the infinite profit factor gives 0 and no error.
\<close>

theorem zero_avg_loss_profit_factor:
  assumes "(n, m) \<in> set (calculate_performance_metrics df)"
    and "avg_loss_of (returns_of (prices_of (subnet_rows df n))) = Fin 0"
    and "\<exists>r \<in> set (returns_of (prices_of (subnet_rows df n))). 0 < r"
  shows "profit_factor m = PInf
         \<and> kelly m = fl_sub (Fin (win_rate m)) (fl_div (Fin (1 - win_rate m)) (profit_factor m))
         \<and> kelly m = Fin (win_rate m)"
proof -
  let ?rows = "subnet_rows df n"
  let ?returns = "returns_of (prices_of ?rows)"
  have some: "subnet_metrics ?rows = Some m"
    by (rule calculate_performance_metrics_entry [OF assms(1)])
  have m: "m = metrics_entry (sort_key date ?rows) (prices_of ?rows) ?returns"
    by (rule subnet_metrics_SomeD(4) [OF some])
  have pf: "profit_factor_of ?returns = PInf"
    using assms(2) by (simp add: profit_factor_of_def fl_ne_def)
  have k: "kelly_of ?returns
           = fl_sub (Fin (win_rate_of ?returns)) (fl_div (Fin (1 - win_rate_of ?returns)) PInf)"
    by (simp add: kelly_of_def pf)
  have k': "fl_sub (Fin (win_rate_of ?returns)) (fl_div (Fin (1 - win_rate_of ?returns)) PInf)
            = Fin (win_rate_of ?returns)"
    by (simp add: fl_sub_def)
  show ?thesis using pf k k' by (simp add: m metrics_entry_def)
qed

theorem zero_avg_loss_profit_factor_witness:
  "profit_factor
     (metrics_entry (sort_key date (price_rows 3 [1, 2, 4, 8, 16])) [1, 2, 4, 8, 16] [1, 1, 1, 1])
   = PInf
   \<and> kelly
     (metrics_entry (sort_key date (price_rows 3 [1, 2, 4, 8, 16])) [1, 2, 4, 8, 16] [1, 1, 1, 1])
   = Fin 1"
proof -
  let ?m = "metrics_entry (sort_key date (price_rows 3 [1, 2, 4, 8, 16])) [1, 2, 4, 8, 16]
              [1, 1, 1, 1]"
  have r: "returns_of (prices_of (subnet_rows (price_rows 3 [1, 2, 4, 8, 16]) 3)) = [1, 1, 1, 1]"
    by (simp only: filter_price_rows_5 prices_of_price_rows_5 returns_doubling)
  have h2: "avg_loss_of (returns_of (prices_of (subnet_rows (price_rows 3 [1, 2, 4, 8, 16]) 3)))
            = Fin 0"
    unfolding r by (simp add: avg_loss_of_def positive_days_of_def)
  have h3: "\<exists>x \<in> set (returns_of (prices_of (subnet_rows (price_rows 3 [1, 2, 4, 8, 16]) 3))).
              0 < x"
    unfolding r by simp
  have w: "win_rate ?m = 1"
    by (simp add: metrics_entry_def win_rate_of_def positive_days_of_def)
  have a: "profit_factor ?m = PInf" and b: "kelly ?m = Fin (win_rate ?m)"
    using zero_avg_loss_profit_factor [OF doubling_entry h2 h3] by blast+
  show ?thesis by (simp only: a b w simp_thms)
qed

end
